theory Spec2Isabelle
  imports Complex_Main "HOL-Library.List_Lexorder" "HOL-Library.Multiset"
begin

section \<open>The test-case generator (scripts/generate\_test\_cases.py)\<close>

text \<open>
  A Python string is the list of its code points, as integers; \<open>str\<close> turns a literal of ASCII
  characters into one. Strings compare as Python compares them, code point by code point.
  File names are the names of the entries of the tests directory (the directory part of
  a path is the same for all of them and is left out).
\<close>

type_synonym pystr = "int list"

definition str :: "string \<Rightarrow> pystr" where
  "str s = map of_char s"

subsection \<open>Constants\<close>

definition SKIP_TESTS :: "pystr set" where
  "SKIP_TESTS =
     {str ''unicode-version-diagnostic'', str ''version-decl'', str ''version-decl.2'',
      str ''ws-and-delim''}"

text \<open>A Python dict keeps insertion order: an association list in that order.\<close>

definition CATEGORIES :: "(pystr \<times> pystr list) list" where
  "CATEGORIES =
     [(str ''Basic Examples'',
         [str ''aaa'', str ''test'', str ''empty-group'', str ''lf'', str ''tab'']),
      (str ''Arithmetic & Math'',
         [str ''arith'', str ''expr'', str ''expr1'', str ''expr2'', str ''expr3'',
          str ''expr4'', str ''expr5'', str ''expr6'', str ''poly'', str ''hash'']),
      (str ''Data Formats'',
         [str ''json'', str ''json1'', str ''xml'', str ''xml1'', str ''vcard'', str ''diary'',
          str ''diary2'', str ''diary3'']),
      (str ''Email & Addresses'', [str ''email'', str ''address'']),
      (str ''Text Processing'',
         [str ''string'', str ''marked'', str ''para-test'', str ''nested-comment'',
          str ''range-comments'', str ''element-content'', str ''attribute-value'']),
      (str ''Character Classes'',
         [str ''range'', str ''ranges'', str ''ranges1'', str ''hex'', str ''hex1'', str ''hex3'',
          str ''unicode-classes'', str ''unicode-range'', str ''unicode-range1'',
          str ''unicode-range2'']),
      (str ''Programming Languages'', [str ''program'', str ''xpath''])]"

subsection \<open>What the program takes from Python and its environment\<close>

text \<open>
  The exceptions of the model. \<open>FileNotFoundError\<close> and \<open>UnicodeDecodeError\<close> are the
  two that the \<open>except\<close> clause of \<open>read_file_safe\<close> names; \<open>PermissionError\<close> and
  \<open>IsADirectoryError\<close> are other \<open>OSError\<close>s that reading a directory entry raises;
  \<open>UnicodeEncodeError\<close> is what \<open>print\<close> raises when standard output cannot encode a
  message.
\<close>

datatype error =
  FileNotFoundError | UnicodeDecodeError | PermissionError | IsADirectoryError
  | UnicodeEncodeError

text \<open>
  The messages the program prints before it writes its output: the three of \<open>main\<close>
  that come before the call of \<open>extract_test_cases\<close>, and the four of the loop, with
  the test name (and the category) they show.
\<close>

datatype message =
  Reading_tests | Output_file | Blank_line
  | Skipping pystr | No_grammar pystr | No_input pystr | Added pystr pystr

text \<open>
  The running Python: what \<open>print\<close> of a message does (\<open>None\<close> when it prints,
  the exception when it raises), and \<open>str.title\<close> on a string with a code point beyond
  ASCII, which follows the case tables of Unicode; these are not part of the repository.
\<close>

record python =
  print_raises :: "message \<Rightarrow> error option"
  title_unicode :: "pystr \<Rightarrow> pystr"

text \<open>
  A \<open>print\<close> call followed by the rest of the computation: an exception of \<open>print\<close>
  is caught nowhere in the program and ends it.
\<close>

definition print_then :: "python \<Rightarrow> message \<Rightarrow> error + 'a \<Rightarrow> error + 'a" where
  "print_then py m rest = (case print_raises py m of Some e \<Rightarrow> Inl e | None \<Rightarrow> rest)"

subsection \<open>get\_category\<close>

text \<open>
  The loop \<open>for category, tests in CATEGORIES.items()\<close> with its early return; the
  \<open>return 'Other'\<close> after the loop is the base case.
\<close>

fun get_category_loop :: "(pystr \<times> pystr list) list \<Rightarrow> pystr \<Rightarrow> pystr" where
  "get_category_loop [] test_name = str ''Other''"
| "get_category_loop ((category, tests) # items) test_name =
     (if test_name \<in> set tests then category else get_category_loop items test_name)"

definition get_category :: "pystr \<Rightarrow> pystr" where
  "get_category test_name = get_category_loop CATEGORIES test_name"

subsection \<open>read\_file\_safe\<close>

text \<open>
  \<open>str.isspace\<close> of a code point (the white space of Unicode) and \<open>str.strip()\<close>.
\<close>

definition isspace :: "int \<Rightarrow> bool" where
  "isspace c \<longleftrightarrow>
     (9 \<le> c \<and> c \<le> 13) \<or> (28 \<le> c \<and> c \<le> 32) \<or> c = 133 \<or> c = 160 \<or> c = 5760
     \<or> (8192 \<le> c \<and> c \<le> 8202) \<or> c = 8232 \<or> c = 8233 \<or> c = 8239 \<or> c = 8287
     \<or> c = 12288"

definition strip :: "pystr \<Rightarrow> pystr" where
  "strip s = rev (dropWhile isspace (rev (dropWhile isspace s)))"

text \<open>
  The first argument is what \<open>path.read_text(encoding='utf-8')\<close> does for each path:
  return the decoded text, or raise. In the result, \<open>None\<close> is the Python \<open>None\<close>;
  \<open>Inl\<close> is an exception that the \<open>except\<close> clause does not catch and that leaves
  the function.
\<close>

definition read_file_safe :: "(pystr \<Rightarrow> error + pystr) \<Rightarrow> pystr \<Rightarrow> error + pystr option" where
  "read_file_safe read_text path =
     (case read_text path of
        Inr s \<Rightarrow> Inr (Some (strip s))
      | Inl FileNotFoundError \<Rightarrow> Inr None
      | Inl UnicodeDecodeError \<Rightarrow> Inr None
      | Inl e \<Rightarrow> Inl e)"

subsection \<open>get\_description\<close>

text \<open>\<open>str.replace('-', ' ')\<close>: 45 is the hyphen, 32 the space.\<close>

definition replace_hyphen :: "pystr \<Rightarrow> pystr" where
  "replace_hyphen s = map (\<lambda>c. if c = 45 then 32 else c) s"

text \<open>
  \<open>str.title()\<close>. On ASCII text it upper-cases a letter that follows a character
  without case and lower-cases a letter that follows a cased one; the cased characters of
  ASCII are its letters. On any other text it is \<open>title_unicode\<close> of the running
  Python.
\<close>

definition is_upper :: "int \<Rightarrow> bool" where
  "is_upper c \<longleftrightarrow> 65 \<le> c \<and> c \<le> 90"

definition is_lower :: "int \<Rightarrow> bool" where
  "is_lower c \<longleftrightarrow> 97 \<le> c \<and> c \<le> 122"

definition to_upper :: "int \<Rightarrow> int" where
  "to_upper c = (if is_lower c then c - 32 else c)"

definition to_lower :: "int \<Rightarrow> int" where
  "to_lower c = (if is_upper c then c + 32 else c)"

fun title_ascii :: "bool \<Rightarrow> pystr \<Rightarrow> pystr" where
  "title_ascii previous_is_cased [] = []"
| "title_ascii previous_is_cased (c # cs) =
     (if previous_is_cased then to_lower c else to_upper c)
       # title_ascii (is_upper c \<or> is_lower c) cs"

definition title :: "python \<Rightarrow> pystr \<Rightarrow> pystr" where
  "title py s = (if list_all (\<lambda>c. c < 128) s then title_ascii False s else title_unicode py s)"

definition descriptions :: "(pystr \<times> pystr) list" where
  "descriptions =
     [(str ''arith'', str ''Parenthesized arithmetic expression with operators''),
      (str ''email'', str ''Email address validation with complex character classes''),
      (str ''address'', str ''Postal address parsing''),
      (str ''json'', str ''Simple JSON parser''),
      (str ''json1'', str ''JSON with nested objects''),
      (str ''xml'', str ''Basic XML parser''),
      (str ''xml1'', str ''XML with attributes''),
      (str ''expr'', str ''Expression with precedence''),
      (str ''diary'', str ''Diary entry with date parsing''),
      (str ''vcard'', str ''vCard contact format''),
      (str ''program'', str ''Simple programming language''),
      (str ''xpath'', str ''XPath expression parsing''),
      (str ''hex'', str ''Hexadecimal number parsing''),
      (str ''string'', str ''String literal parsing''),
      (str ''range'', str ''Character range matching''),
      (str ''unicode-classes'', str ''Unicode character class support'')]"

definition get_description :: "python \<Rightarrow> pystr \<Rightarrow> pystr" where
  "get_description py test_name =
     (case map_of descriptions test_name of
        Some d \<Rightarrow> d
      | None \<Rightarrow> title py (replace_hyphen test_name))"

subsection \<open>Paths of the tests directory\<close>

text \<open>
  \<open>Path.stem\<close> and \<open>Path.with_suffix\<close> on a file name, as pathlib computes them:
  with \<open>i\<close> the index of the last dot (code point 46), the suffix is \<open>name[i:]\<close> when
  \<open>0 < i < len(name) - 1\<close> and empty otherwise, the stem is the rest of the name, and
  \<open>with_suffix\<close> puts the new suffix after the stem.
\<close>

definition rfind_dot :: "pystr \<Rightarrow> nat option" where
  "rfind_dot name = find (\<lambda>i. name ! i = 46) (rev [0..<length name])"

definition stem :: "pystr \<Rightarrow> pystr" where
  "stem name =
     (case rfind_dot name of
        Some i \<Rightarrow> if 0 < i \<and> i < length name - 1 then take i name else name
      | None \<Rightarrow> name)"

definition with_suffix :: "pystr \<Rightarrow> pystr \<Rightarrow> pystr" where
  "with_suffix name suffix = stem name @ suffix"

text \<open>
  The tests directory: the names of its entries, in the order the operating system lists
  them, and what reading each name as UTF-8 text does.
\<close>

record tests_dir =
  entries :: "pystr list"
  read_text :: "pystr \<Rightarrow> error + pystr"

definition endswith :: "pystr \<Rightarrow> pystr \<Rightarrow> bool" where
  "endswith name s = (length s \<le> length name \<and> drop (length name - length s) name = s)"

text \<open>\<open>tests_dir.glob('*.ixml')\<close>: the entries whose name ends with \<open>.ixml\<close>.\<close>

definition glob_ixml :: "tests_dir \<Rightarrow> pystr list" where
  "glob_ixml d = filter (\<lambda>name. endswith name (str ''.ixml'')) (entries d)"

subsection \<open>extract\_test\_cases\<close>

record test_case =
  tc_name :: pystr
  tc_id :: pystr
  tc_grammar :: pystr
  tc_input :: pystr
  tc_description :: pystr

text \<open>
  \<open>categories: Dict[str, List[Dict]]\<close>, in insertion order. Adding a test case creates
  the category's list at the end of the dict when the key is new, then appends to the
  key's list.
\<close>

type_synonym categories = "(pystr \<times> test_case list) list"

definition add_to_category :: "pystr \<Rightarrow> test_case \<Rightarrow> categories \<Rightarrow> categories" where
  "add_to_category category test_case categories =
     (let categories' =
            (if category \<notin> fst ` set categories then categories @ [(category, [])]
             else categories)
      in map (\<lambda>(k, tests). if k = category then (k, tests @ [test_case]) else (k, tests))
           categories')"

definition make_test_case :: "python \<Rightarrow> pystr \<Rightarrow> pystr \<Rightarrow> pystr \<Rightarrow> test_case" where
  "make_test_case py test_name grammar input_text =
     \<lparr>tc_name = title py (replace_hyphen test_name),
      tc_id = test_name,
      tc_grammar = grammar,
      tc_input = input_text,
      tc_description = get_description py test_name\<rparr>"

text \<open>
  \<open>not x\<close> for the result of \<open>read_file_safe\<close>: true for \<open>None\<close> and for the
  empty string; and the string of a result that is not \<open>None\<close>.
\<close>

definition falsy :: "pystr option \<Rightarrow> bool" where
  "falsy x = (case x of None \<Rightarrow> True | Some s \<Rightarrow> s = [])"

definition str_of :: "pystr option \<Rightarrow> pystr" where
  "str_of x = (case x of None \<Rightarrow> [] | Some s \<Rightarrow> s)"

text \<open>
  The body of the \<open>for\<close> loop over the sorted files, statement by statement. Each
  \<open>print\<close> before a \<open>continue\<close> comes before the recursive call with the dict
  unchanged; the last \<open>print\<close> comes after the test case is added. An exception of
  \<open>print\<close>, or one that \<open>read_file_safe\<close> lets through, ends the loop with \<open>Inl\<close>.
\<close>

fun extract_loop ::
  "python \<Rightarrow> (pystr \<Rightarrow> error + pystr) \<Rightarrow> pystr list \<Rightarrow> categories \<Rightarrow> error + categories" where
  "extract_loop py rd [] categories = Inr categories"
| "extract_loop py rd (ixml_file # files) categories =
     (let test_name = stem ixml_file in
      if test_name \<in> SKIP_TESTS
      then print_then py (Skipping test_name) (extract_loop py rd files categories)
      else
        case read_file_safe rd ixml_file of
          Inl e \<Rightarrow> Inl e
        | Inr grammar \<Rightarrow>
            if falsy grammar
            then print_then py (No_grammar test_name) (extract_loop py rd files categories)
            else
              case read_file_safe rd (with_suffix ixml_file (str ''.inp'')) of
                Inl e \<Rightarrow> Inl e
              | Inr input_text \<Rightarrow>
                  if falsy input_text
                  then print_then py (No_input test_name) (extract_loop py rd files categories)
                  else
                    let category = get_category test_name;
                        test_case =
                          make_test_case py test_name (str_of grammar) (str_of input_text);
                        categories' = add_to_category category test_case categories
                    in print_then py (Added test_name category)
                         (extract_loop py rd files categories'))"

definition extract_test_cases :: "python \<Rightarrow> tests_dir \<Rightarrow> error + categories" where
  "extract_test_cases py d = extract_loop py (read_text d) (sort (glob_ixml d)) []"

subsection \<open>main\<close>

definition category_order :: "pystr list" where
  "category_order =
     [str ''Basic Examples'', str ''Arithmetic & Math'', str ''Data Formats'',
      str ''Email & Addresses'', str ''Text Processing'', str ''Character Classes'',
      str ''Programming Languages'', str ''Other'']"

record stats =
  total_tests :: nat
  stats_categories :: nat

record json_output =
  out_version :: pystr
  out_description :: pystr
  out_categories :: categories
  out_stats :: stats

text \<open>
  \<open>{cat: categories[cat] for cat in category_order if cat in categories}\<close>: the lookup
  succeeds exactly when the key is in the dict.
\<close>

definition sorted_categories :: "categories \<Rightarrow> categories" where
  "sorted_categories categories =
     List.map_filter (\<lambda>cat. map_option (Pair cat) (map_of categories cat)) category_order"

definition make_output :: "categories \<Rightarrow> json_output" where
  "make_output categories =
     \<lparr>out_version = str ''0.2.0'',
      out_description = str ''Passing test cases from the iXML test suite'',
      out_categories = sorted_categories categories,
      out_stats =
        \<lparr>total_tests = sum_list (map (\<lambda>(cat, tests). length tests) categories),
         stats_categories = length categories\<rparr>\<rparr>"

text \<open>
  \<open>main\<close> up to the object it hands to \<open>json.dump\<close>: its three \<open>print\<close> calls,
  the call of \<open>extract_test_cases\<close> and the output structure. An exception leaves
  \<open>main\<close> before anything is written.
\<close>

definition main :: "python \<Rightarrow> tests_dir \<Rightarrow> error + json_output" where
  "main py d =
     print_then py Reading_tests
       (print_then py Output_file
          (print_then py Blank_line
             (case extract_test_cases py d of
                Inl e \<Rightarrow> Inl e
              | Inr categories \<Rightarrow> Inr (make_output categories))))"

subsection \<open>Vocabulary of the properties\<close>

text \<open>
  The outcome of reading a file that makes the loop skip the test: the file is missing,
  is not decodable as UTF-8, or is empty once stripped.
\<close>

definition unusable :: "error + pystr \<Rightarrow> bool" where
  "unusable r =
     (case r of
        Inl FileNotFoundError \<Rightarrow> True
      | Inl UnicodeDecodeError \<Rightarrow> True
      | Inl e \<Rightarrow> False
      | Inr s \<Rightarrow> strip s = [])"

text \<open>The condition under which a globbed file contributes no test case.\<close>

definition excluded :: "tests_dir \<Rightarrow> pystr \<Rightarrow> bool" where
  "excluded d ixml_file =
     (stem ixml_file \<in> SKIP_TESTS
      \<or> unusable (read_text d ixml_file)
      \<or> unusable (read_text d (with_suffix ixml_file (str ''.inp''))))"

text \<open>The test case a file that is not excluded contributes.\<close>

definition text_of :: "error + pystr \<Rightarrow> pystr" where
  "text_of r = (case r of Inr s \<Rightarrow> s | Inl e \<Rightarrow> [])"

definition expected_case :: "python \<Rightarrow> tests_dir \<Rightarrow> pystr \<Rightarrow> test_case" where
  "expected_case py d ixml_file =
     make_test_case py (stem ixml_file)
       (strip (text_of (read_text d ixml_file)))
       (strip (text_of (read_text d (with_suffix ixml_file (str ''.inp'')))))"

text \<open>
  The exception with which a read fails, when it is not one of the two that
  \<open>read_file_safe\<close> catches.
\<close>

definition uncaught :: "error + pystr \<Rightarrow> error option" where
  "uncaught r =
     (case r of
        Inr s \<Rightarrow> None
      | Inl FileNotFoundError \<Rightarrow> None
      | Inl UnicodeDecodeError \<Rightarrow> None
      | Inl e \<Rightarrow> Some e)"

text \<open>
  The exception that the processing of one globbed file raises, if any: the first among
  the failures of the reads it performs that are not caught and of the \<open>print\<close> it
  performs. The grammar is read unless the test is skipped; the input file is read only
  when the grammar is usable; one message is printed for the file.
\<close>

definition file_raises :: "python \<Rightarrow> tests_dir \<Rightarrow> pystr \<Rightarrow> error option" where
  "file_raises py d ixml_file =
     (let test_name = stem ixml_file;
          grammar = read_text d ixml_file;
          input_text = read_text d (with_suffix ixml_file (str ''.inp''))
      in if test_name \<in> SKIP_TESTS then print_raises py (Skipping test_name)
         else if uncaught grammar \<noteq> None then uncaught grammar
         else if unusable grammar then print_raises py (No_grammar test_name)
         else if uncaught input_text \<noteq> None then uncaught input_text
         else if unusable input_text then print_raises py (No_input test_name)
         else print_raises py (Added test_name (get_category test_name)))"

text \<open>All test cases of a dict of categories, category by category.\<close>

definition all_cases :: "categories \<Rightarrow> test_case list" where
  "all_cases categories = concat (map snd categories)"

text \<open>
  The loop invariant of \<open>extract_test_cases\<close>: keys are unique, every key is one of
  \<open>category_order\<close>, and no category is empty.
\<close>

definition categories_inv :: "categories \<Rightarrow> bool" where
  "categories_inv cats \<longleftrightarrow> distinct (map fst cats) \<and> fst ` set cats \<subseteq> set category_order
     \<and> (\<forall>(k, tests) \<in> set cats. tests \<noteq> [])"

definition filled :: "test_case \<Rightarrow> bool" where
  "filled tc \<longleftrightarrow> tc_grammar tc \<noteq> [] \<and> tc_input tc \<noteq> []"

subsection \<open>Example directories\<close>

text \<open>
  A Python whose standard output takes every message. The names of the examples are
  ASCII, so \<open>title_unicode\<close> is not called on them.
\<close>

definition utf8_python :: python where
  "utf8_python = \<lparr>print_raises = (\<lambda>m. None), title_unicode = (\<lambda>s. s)\<rparr>"

text \<open>
  A Python whose standard output is ASCII: every message but the empty line holds an
  emoji, and printing it raises \<open>UnicodeEncodeError\<close>.
\<close>

definition ascii_python :: python where
  "ascii_python =
     \<lparr>print_raises = (\<lambda>m. case m of Blank_line \<Rightarrow> None | _ \<Rightarrow> Some UnicodeEncodeError),
      title_unicode = (\<lambda>s. s)\<rparr>"

text \<open>
  A directory listed out of order, with a skipped test, a grammar that is only
  whitespace, a grammar that is not UTF-8, a grammar without its input file, a file that
  is no grammar, and four tests that pass all checks.
\<close>

definition example_dir :: tests_dir where
  "example_dir =
     \<lparr>entries =
        [str ''xml.ixml'', str ''notes.txt'', str ''arith.ixml'', str ''arith.inp'',
         str ''xml.inp'', str ''version-decl.ixml'', str ''version-decl.inp'',
         str ''empty.ixml'', str ''empty.inp'', str ''binary.ixml'', str ''binary.inp'',
         str ''lonely.ixml'', str ''my-test.ixml'', str ''my-test.inp'', str ''aaa.ixml'',
         str ''aaa.inp''],
      read_text = (\<lambda>path.
        if path = str ''xml.ixml'' then Inr (str ''  xml: a. '')
        else if path = str ''xml.inp'' then Inr (str ''<a/>'' @ [10])
        else if path = str ''arith.ixml'' then Inr (str ''expr: b.'')
        else if path = str ''arith.inp'' then Inr (str ''1+1'')
        else if path = str ''version-decl.ixml'' then Inr (str ''ixml version 1.0. s: a.'')
        else if path = str ''version-decl.inp'' then Inr (str ''a'')
        else if path = str ''empty.ixml'' then Inr (str ''   '')
        else if path = str ''empty.inp'' then Inr (str ''x'')
        else if path = str ''binary.ixml'' then Inl UnicodeDecodeError
        else if path = str ''binary.inp'' then Inr (str ''y'')
        else if path = str ''lonely.ixml'' then Inr (str ''s: a.'')
        else if path = str ''my-test.ixml'' then Inr (str ''t: c.'')
        else if path = str ''my-test.inp'' then Inr (str ''c'')
        else if path = str ''aaa.ixml'' then Inr (str ''a: a.'')
        else if path = str ''aaa.inp'' then Inr (str ''aaa'')
        else Inl FileNotFoundError)\<rparr>"

text \<open>The same directory, listed by the operating system in the reverse order.\<close>

definition relisted_dir :: tests_dir where
  "relisted_dir = example_dir\<lparr>entries := rev (entries example_dir)\<rparr>"

text \<open>What \<open>extract_test_cases\<close> and \<open>main\<close> compute on it.\<close>

definition example_categories :: categories where
  "example_categories =
     [(str ''Basic Examples'',
         [\<lparr>tc_name = str ''Aaa'', tc_id = str ''aaa'', tc_grammar = str ''a: a.'',
           tc_input = str ''aaa'', tc_description = str ''Aaa''\<rparr>]),
      (str ''Arithmetic & Math'',
         [\<lparr>tc_name = str ''Arith'', tc_id = str ''arith'', tc_grammar = str ''expr: b.'',
           tc_input = str ''1+1'',
           tc_description = str ''Parenthesized arithmetic expression with operators''\<rparr>]),
      (str ''Other'',
         [\<lparr>tc_name = str ''My Test'', tc_id = str ''my-test'', tc_grammar = str ''t: c.'',
           tc_input = str ''c'', tc_description = str ''My Test''\<rparr>]),
      (str ''Data Formats'',
         [\<lparr>tc_name = str ''Xml'', tc_id = str ''xml'', tc_grammar = str ''xml: a.'',
           tc_input = str ''<a/>'', tc_description = str ''Basic XML parser''\<rparr>])]"

definition example_output :: json_output where
  "example_output =
     \<lparr>out_version = str ''0.2.0'',
      out_description = str ''Passing test cases from the iXML test suite'',
      out_categories =
        [(str ''Basic Examples'',
            [\<lparr>tc_name = str ''Aaa'', tc_id = str ''aaa'', tc_grammar = str ''a: a.'',
              tc_input = str ''aaa'', tc_description = str ''Aaa''\<rparr>]),
         (str ''Arithmetic & Math'',
            [\<lparr>tc_name = str ''Arith'', tc_id = str ''arith'', tc_grammar = str ''expr: b.'',
              tc_input = str ''1+1'',
              tc_description = str ''Parenthesized arithmetic expression with operators''\<rparr>]),
         (str ''Data Formats'',
            [\<lparr>tc_name = str ''Xml'', tc_id = str ''xml'', tc_grammar = str ''xml: a.'',
              tc_input = str ''<a/>'', tc_description = str ''Basic XML parser''\<rparr>]),
         (str ''Other'',
            [\<lparr>tc_name = str ''My Test'', tc_id = str ''my-test'', tc_grammar = str ''t: c.'',
              tc_input = str ''c'', tc_description = str ''My Test''\<rparr>])],
      out_stats = \<lparr>total_tests = 4, stats_categories = 4\<rparr>\<rparr>"

text \<open>A directory whose input file exists and cannot be read by the user.\<close>

definition unreadable_dir :: tests_dir where
  "unreadable_dir =
     \<lparr>entries = [str ''arith.ixml'', str ''arith.inp''],
      read_text = (\<lambda>path.
        if path = str ''arith.ixml'' then Inr (str ''expr: b.'')
        else if path = str ''arith.inp'' then Inl PermissionError
        else Inl FileNotFoundError)\<rparr>"

text \<open>
  A directory whose first grammar cannot be read by the user and has no input file, and
  whose second grammar is a directory.
\<close>

definition locked_dir :: tests_dir where
  "locked_dir =
     \<lparr>entries = [str ''b.ixml'', str ''a.ixml''],
      read_text = (\<lambda>path.
        if path = str ''a.ixml'' then Inl PermissionError
        else if path = str ''b.ixml'' then Inl IsADirectoryError
        else Inl FileNotFoundError)\<rparr>"

section \<open>The retrieval core, modelled from the specification\<close>

text \<open>
  Modelled from the spec: the retrieval package the hook imports has no source in the
  repository. Similarity scores and the threshold are values of a linearly ordered type
  \<open>'s\<close> (the specification's floats, compared only); embeddings are values of a type
  \<open>'v\<close>; the Embedder and the similarity metric are parameters.
\<close>

text \<open>Modelled from the spec: the error kinds of section 7.\<close>

datatype core_error = ConfigurationError | EmbeddingError | StoreUnavailable | TimeoutExceeded

text \<open>Modelled from the spec: the Commit Record of section 3.\<close>

record 'v commit_record =
  commit_id :: string
  message :: string
  diff :: string
  timestamp :: nat
  embedding :: 'v

text \<open>Modelled from the spec: the Configuration of section 3.\<close>

record 's configuration =
  db_path :: string
  repo_path :: string
  max_results :: nat
  similarity_threshold :: 's
  enable_delta_analysis :: bool
  enable_pattern_detection :: bool

text \<open>
  Modelled from the spec: the Search Result of section 3, a commit reference and its
  similarity score; the rank of a result is its position in the returned sequence.
\<close>

record 's search_result =
  commit_ref :: string
  score :: 's

subsection \<open>Vector Store\<close>

text \<open>
  Modelled from the spec: the Vector Store's contents, the stored Commit Records. The
  store holds one record per identifier when \<open>distinct (map commit_id store)\<close>.
\<close>

type_synonym 'v vector_store = "'v commit_record list"

text \<open>
  Modelled from the spec: \<open>upsert(record)\<close> "inserts or replaces a Commit Record by
  identifier" (section 4.1).
\<close>

definition upsert :: "'v commit_record \<Rightarrow> 'v vector_store \<Rightarrow> 'v vector_store" where
  "upsert record store =
     (if commit_id record \<in> commit_id ` set store
      then map (\<lambda>r. if commit_id r = commit_id record then record else r) store
      else store @ [record])"

text \<open>
  Modelled from the spec: the order "descending by score, tie-break by recency"
  (section 4.3), which is also the store's "nearest by similarity metric, ties broken by
  most-recent timestamp first" (section 4.1), on records paired with their score.
\<close>

definition ranks_before :: "'v commit_record \<times> 's::linorder \<Rightarrow> 'v commit_record \<times> 's \<Rightarrow> bool" where
  "ranks_before a b \<longleftrightarrow>
     snd b < snd a \<or> (snd a = snd b \<and> timestamp (fst b) \<le> timestamp (fst a))"

text \<open>Modelled from the spec: sorting in that order, by insertion.\<close>

fun insert_ranked ::
  "'v commit_record \<times> 's::linorder \<Rightarrow> ('v commit_record \<times> 's) list \<Rightarrow> ('v commit_record \<times> 's) list" where
  "insert_ranked x [] = [x]"
| "insert_ranked x (y # ys) =
     (if ranks_before x y then x # y # ys else y # insert_ranked x ys)"

fun sort_ranked :: "('v commit_record \<times> 's::linorder) list \<Rightarrow> ('v commit_record \<times> 's) list" where
  "sort_ranked [] = []"
| "sort_ranked (x # xs) = insert_ranked x (sort_ranked xs)"

text \<open>Modelled from the spec: "compute similarity scores" for a list of records.\<close>

definition with_scores ::
  "('v \<Rightarrow> 'v \<Rightarrow> 's) \<Rightarrow> 'v \<Rightarrow> 'v commit_record list \<Rightarrow> ('v commit_record \<times> 's) list" where
  "with_scores similarity vector records =
     map (\<lambda>r. (r, similarity vector (embedding r))) records"

text \<open>
  Modelled from the spec: \<open>query(vector, k)\<close> "returns the k nearest records by
  similarity metric, ties broken by most-recent timestamp first"; for an empty store it
  returns an empty result set (section 4.1).
\<close>

definition query ::
  "('v \<Rightarrow> 'v \<Rightarrow> 's::linorder) \<Rightarrow> 'v vector_store \<Rightarrow> 'v \<Rightarrow> nat \<Rightarrow> 'v commit_record list" where
  "query similarity store vector k =
     take k (map fst (sort_ranked (with_scores similarity vector store)))"

subsection \<open>Similarity Ranker\<close>

text \<open>
  Modelled from the spec: the candidates of section 4.3 that survive the threshold:
  "retrieve \<open>max_results * overfetch_factor\<close> candidates from the Vector Store; compute
  similarity scores; drop any candidate below \<open>similarity_threshold\<close>".
\<close>

definition surviving ::
  "'s::linorder configuration \<Rightarrow> nat \<Rightarrow> ('v \<Rightarrow> 'v \<Rightarrow> 's) \<Rightarrow> 'v vector_store \<Rightarrow> 'v
     \<Rightarrow> ('v commit_record \<times> 's) list" where
  "surviving config overfetch_factor similarity store vector =
     filter (\<lambda>c. \<not> snd c < similarity_threshold config)
       (with_scores similarity vector
          (query similarity store vector (max_results config * overfetch_factor)))"

text \<open>Modelled from the spec: the Search Result of a scored record.\<close>

definition to_result :: "'v commit_record \<times> 's \<Rightarrow> 's search_result" where
  "to_result c = \<lparr>commit_ref = commit_id (fst c), score = snd c\<rparr>"

text \<open>
  Modelled from the spec: the Similarity Ranker of section 4.3: "embed the query once;
  retrieve candidates; compute similarity scores; drop any candidate below
  \<open>similarity_threshold\<close>; sort descending by score, tie-break by recency; truncate to
  \<open>max_results\<close>". The Embedder "fails with \<open>EmbeddingError\<close>" (section 4.2), which the
  ranker passes on.
\<close>

definition rank_query ::
  "'s::linorder configuration \<Rightarrow> nat \<Rightarrow> (string \<Rightarrow> core_error + 'v) \<Rightarrow> ('v \<Rightarrow> 'v \<Rightarrow> 's)
     \<Rightarrow> 'v vector_store \<Rightarrow> string \<Rightarrow> core_error + 's search_result list" where
  "rank_query config overfetch_factor embed_text similarity store prompt =
     (case embed_text prompt of
        Inl e \<Rightarrow> Inl e
      | Inr vector \<Rightarrow>
          Inr (map to_result
                 (take (max_results config)
                    (sort_ranked (surviving config overfetch_factor similarity store vector)))))"

subsection \<open>Scenarios\<close>

text \<open>
  Modelled from the spec: dot-product similarity (section 2) of two vectors of rationals.
\<close>

definition dot_product :: "rat list \<Rightarrow> rat list \<Rightarrow> rat" where
  "dot_product a b = sum_list (map2 (*) a b)"

text \<open>
  Modelled from the spec: an Embedder for the scenarios, which fails on the empty text
  (section 4.2) and maps every other prompt to the same vector.
\<close>

definition scenario_embed :: "string \<Rightarrow> core_error + rat list" where
  "scenario_embed prompt = (if prompt = [] then Inl EmbeddingError else Inr [1, 0])"

text \<open>
  Modelled from the spec: the scenario of section 8, a "store [that] has 3 commits with
  similarity scores [0.9, 0.75, 0.4] to a query, \<open>max_results=2\<close>,
  \<open>similarity_threshold=0.7\<close>". The store is built by three upserts.
\<close>

definition scenario_store :: "rat list vector_store" where
  "scenario_store =
     upsert \<lparr>commit_id = ''c3'', message = ''update docs'', diff = [], timestamp = 3,
             embedding = [2 / 5, 9 / 10]\<rparr>
       (upsert \<lparr>commit_id = ''c2'', message = ''fix parser'', diff = [], timestamp = 2,
                embedding = [3 / 4, 1 / 2]\<rparr>
          (upsert \<lparr>commit_id = ''c1'', message = ''add parser'', diff = [], timestamp = 1,
                   embedding = [9 / 10, 1 / 10]\<rparr> []))"

text \<open>Modelled from the spec: the Configuration of that scenario.\<close>

definition scenario_config :: "rat configuration" where
  "scenario_config =
     \<lparr>db_path = ''db'', repo_path = ''repo'', max_results = 2, similarity_threshold = 7 / 10,
      enable_delta_analysis = True, enable_pattern_detection = True\<rparr>"

text \<open>
  Modelled from the spec: the result set of that scenario, "exactly the first two commits
  in that score order".
\<close>

definition scenario_results :: "rat search_result list" where
  "scenario_results =
     [\<lparr>commit_ref = ''c1'', score = 9 / 10\<rparr>, \<lparr>commit_ref = ''c2'', score = 3 / 4\<rparr>]"

text \<open>
  Modelled from the spec: the same scenario with room for three results, so that fewer
  candidates survive the threshold than \<open>max_results\<close>.
\<close>

definition roomy_config :: "rat configuration" where
  "roomy_config = scenario_config\<lparr>max_results := 3\<rparr>"

text \<open>
  Modelled from the spec: a store in which a fourth commit ties with the second on score
  and is more recent, and the first commit has been replaced by an upsert with the same
  identifier; three results, threshold one half.
\<close>

definition history_store :: "rat list vector_store" where
  "history_store =
     upsert \<lparr>commit_id = ''c1'', message = ''add parser, amended'', diff = [], timestamp = 5,
             embedding = [3 / 5, 0]\<rparr>
       (upsert \<lparr>commit_id = ''c4'', message = ''fix lexer'', diff = [], timestamp = 4,
                embedding = [3 / 4, 0]\<rparr> scenario_store)"

text \<open>Modelled from the spec: the Configuration used with that store.\<close>

definition history_config :: "rat configuration" where
  "history_config = scenario_config\<lparr>max_results := 3, similarity_threshold := 1 / 2\<rparr>"

text \<open>
  Modelled from the spec: the result set for that store, the tie resolved for the more
  recent commit and the third commit under the threshold.
\<close>

definition history_results :: "rat search_result list" where
  "history_results =
     [\<lparr>commit_ref = ''c4'', score = 3 / 4\<rparr>, \<lparr>commit_ref = ''c2'', score = 3 / 4\<rparr>,
      \<lparr>commit_ref = ''c1'', score = 3 / 5\<rparr>]"

section \<open>Properties of the test-case generator\<close>

subsection \<open>Adding a test case to a category\<close>

lemma add_to_category_keys:
  "map fst (add_to_category c t cats) =
     (if c \<in> fst ` set cats then map fst cats else map fst cats @ [c])"
  by (auto simp: add_to_category_def Let_def split: prod.splits)

lemma add_to_category_distinct:
  "distinct (map fst cats) \<Longrightarrow> distinct (map fst (add_to_category c t cats))"
  by (auto simp: add_to_category_keys)

lemma append_member_cases:
  "distinct (map fst cats) \<Longrightarrow> c \<in> fst ` set cats \<Longrightarrow>
   mset (concat (map snd (map (\<lambda>(k, tests). if k = c then (k, tests @ [t]) else (k, tests)) cats)))
     = mset (concat (map snd cats)) + {#t#}"
proof (induction cats)
  case Nil
  then show ?case by simp
next
  case (Cons a cats)
  obtain k ts where a: "a = (k, ts)" by (cases a)
  show ?case
  proof (cases "k = c")
    case True
    with Cons.prems a have "c \<notin> fst ` set cats" by auto
    then have "map (\<lambda>(k, tests). if k = c then (k, tests @ [t]) else (k, tests)) cats = cats"
      by (induction cats) auto
    with True a show ?thesis by simp
  next
    case False
    with Cons a show ?thesis by auto
  qed
qed

lemma add_to_category_cases:
  assumes "distinct (map fst cats)"
  shows "mset (all_cases (add_to_category c t cats)) = mset (all_cases cats) + {#t#}"
proof (cases "c \<in> fst ` set cats")
  case True
  with append_member_cases [OF assms True, of t] show ?thesis
    by (simp add: add_to_category_def all_cases_def del: map_map)
next
  case False
  then have "map (\<lambda>(k, tests). if k = c then (k, tests @ [t]) else (k, tests)) cats = cats"
    by (induction cats) auto
  with False show ?thesis
    by (simp add: add_to_category_def all_cases_def)
qed

lemma add_to_category_nonempty:
  "\<forall>(k, tests) \<in> set cats. tests \<noteq> [] \<Longrightarrow>
   \<forall>(k, tests) \<in> set (add_to_category c t cats). tests \<noteq> []"
  by (auto simp: add_to_category_def Let_def split: if_splits)

lemma get_category_loop_in:
  "get_category_loop items n \<in> insert (str ''Other'') (fst ` set items)"
  by (induction items n rule: get_category_loop.induct) auto

lemma get_category_in_order: "get_category n \<in> set category_order"
  using get_category_loop_in [of CATEGORIES n]
  by (auto simp: get_category_def CATEGORIES_def category_order_def)

subsection \<open>One iteration of the loop\<close>

lemma print_then_Inl: "print_raises py m = Some e \<Longrightarrow> print_then py m rest = Inl e"
  by (simp add: print_then_def)

lemma print_then_None: "print_raises py m = None \<Longrightarrow> print_then py m rest = rest"
  by (simp add: print_then_def)

lemma read_file_safe_uncaught:
  "uncaught (rd p) = Some e \<Longrightarrow> read_file_safe rd p = Inl e"
  by (auto simp: uncaught_def read_file_safe_def split: sum.splits error.splits)

lemma read_file_safe_caught:
  assumes "uncaught (rd p) = None"
  shows "\<exists>v. read_file_safe rd p = Inr v \<and> falsy v = unusable (rd p)
           \<and> (\<not> falsy v \<longrightarrow> str_of v = strip (text_of (rd p)))"
  using assms
  by (auto simp: uncaught_def read_file_safe_def falsy_def unusable_def str_of_def text_of_def
      split: sum.splits error.splits)

lemma extract_loop_raises:
  assumes "file_raises py d f = Some e"
  shows "extract_loop py (read_text d) (f # fs) acc = Inl e"
proof (cases "stem f \<in> SKIP_TESTS")
  case True
  with assms show ?thesis
    by (simp add: file_raises_def Let_def print_then_Inl)
next
  case skip: False
  show ?thesis
  proof (cases "uncaught (read_text d f)")
    case (Some e')
    with assms skip have "e' = e" by (simp add: file_raises_def Let_def)
    with Some skip show ?thesis
      by (simp add: Let_def read_file_safe_uncaught)
  next
    case g: None
    from read_file_safe_caught [of "read_text d" f, OF g] obtain v where
      v: "read_file_safe (read_text d) f = Inr v" "falsy v = unusable (read_text d f)"
      by blast
    show ?thesis
    proof (cases "unusable (read_text d f)")
      case True
      with assms skip g have "print_raises py (No_grammar (stem f)) = Some e"
        by (simp add: file_raises_def Let_def)
      with True skip v show ?thesis
        by (simp add: Let_def print_then_Inl)
    next
      case usable: False
      let ?inp = "with_suffix f (str ''.inp'')"
      show ?thesis
      proof (cases "uncaught (read_text d ?inp)")
        case (Some e')
        with assms skip g usable have "e' = e" by (simp add: file_raises_def Let_def)
        with Some skip v usable show ?thesis
          by (simp add: Let_def read_file_safe_uncaught)
      next
        case i: None
        from read_file_safe_caught [of "read_text d" ?inp, OF i] obtain w where
          w: "read_file_safe (read_text d) ?inp = Inr w" "falsy w = unusable (read_text d ?inp)"
          by blast
        show ?thesis
        proof (cases "unusable (read_text d ?inp)")
          case True
          with assms skip g usable i have "print_raises py (No_input (stem f)) = Some e"
            by (simp add: file_raises_def Let_def)
          with True skip v usable w show ?thesis
            by (simp add: Let_def print_then_Inl)
        next
          case False
          with assms skip g usable i
          have "print_raises py (Added (stem f) (get_category (stem f))) = Some e"
            by (simp add: file_raises_def Let_def)
          with False skip v usable w show ?thesis
            by (simp add: Let_def print_then_Inl)
        qed
      qed
    qed
  qed
qed

lemma extract_loop_continues:
  assumes "file_raises py d f = None"
  shows "extract_loop py (read_text d) (f # fs) acc =
           extract_loop py (read_text d) fs
             (if excluded d f then acc
              else add_to_category (get_category (stem f)) (expected_case py d f) acc)
         \<and> (\<not> excluded d f \<longrightarrow> filled (expected_case py d f))"
proof (cases "stem f \<in> SKIP_TESTS")
  case True
  with assms show ?thesis
    by (simp add: file_raises_def Let_def print_then_None excluded_def)
next
  case skip: False
  have g: "uncaught (read_text d f) = None"
    using assms skip by (auto simp: file_raises_def Let_def split: if_splits)
  from read_file_safe_caught [of "read_text d" f, OF g] obtain v where
    v: "read_file_safe (read_text d) f = Inr v" "falsy v = unusable (read_text d f)"
       "\<not> falsy v \<longrightarrow> str_of v = strip (text_of (read_text d f))"
    by blast
  show ?thesis
  proof (cases "unusable (read_text d f)")
    case True
    with assms skip g have "print_raises py (No_grammar (stem f)) = None"
      by (simp add: file_raises_def Let_def)
    with True skip v show ?thesis
      by (simp add: Let_def print_then_None excluded_def)
  next
    case usable: False
    let ?inp = "with_suffix f (str ''.inp'')"
    have i: "uncaught (read_text d ?inp) = None"
      using assms skip g usable by (auto simp: file_raises_def Let_def split: if_splits)
    from read_file_safe_caught [of "read_text d" ?inp, OF i] obtain w where
      w: "read_file_safe (read_text d) ?inp = Inr w" "falsy w = unusable (read_text d ?inp)"
         "\<not> falsy w \<longrightarrow> str_of w = strip (text_of (read_text d ?inp))"
      by blast
    show ?thesis
    proof (cases "unusable (read_text d ?inp)")
      case True
      with assms skip g usable i have "print_raises py (No_input (stem f)) = None"
        by (simp add: file_raises_def Let_def)
      with True skip v usable w show ?thesis
        by (simp add: Let_def print_then_None excluded_def)
    next
      case False
      with assms skip g usable i
      have p: "print_raises py (Added (stem f) (get_category (stem f))) = None"
        by (simp add: file_raises_def Let_def)
      from False usable skip have x: "\<not> excluded d f"
        by (simp add: excluded_def)
      from False usable v w
      have e: "make_test_case py (stem f) (str_of v) (str_of w) = expected_case py d f"
        by (simp add: expected_case_def)
      from False usable v w have "str_of v \<noteq> []" "str_of w \<noteq> []"
        by (auto simp: falsy_def str_of_def split: option.splits)
      then have "filled (make_test_case py (stem f) (str_of v) (str_of w))"
        by (simp add: filled_def make_test_case_def)
      with e have "filled (expected_case py d f)"
        by simp
      with False skip v usable w p x e show ?thesis
        by (simp add: Let_def print_then_None)
    qed
  qed
qed

subsection \<open>The whole loop\<close>

lemma extract_loop_Inl_iff:
  "extract_loop py (read_text d) fs acc = Inl e \<longleftrightarrow>
     (\<exists>f. find (\<lambda>f. file_raises py d f \<noteq> None) fs = Some f \<and> file_raises py d f = Some e)"
proof (induction fs arbitrary: acc)
  case Nil
  then show ?case by simp
next
  case (Cons f fs)
  show ?case
  proof (cases "file_raises py d f")
    case None
    with extract_loop_continues [OF None, of fs acc] Cons.IH show ?thesis
      by simp
  next
    case (Some e')
    with extract_loop_raises [OF Some, of fs acc] show ?thesis
      by auto
  qed
qed

lemma extract_loop_Inr_iff:
  "(\<exists>cats. extract_loop py (read_text d) fs acc = Inr cats) \<longleftrightarrow>
     (\<forall>f \<in> set fs. file_raises py d f = None)"
proof (induction fs arbitrary: acc)
  case Nil
  then show ?case by simp
next
  case (Cons f fs)
  show ?case
  proof (cases "file_raises py d f")
    case None
    with extract_loop_continues [OF None, of fs acc] Cons.IH show ?thesis
      by simp
  next
    case (Some e')
    with extract_loop_raises [OF Some, of fs acc] show ?thesis
      by simp
  qed
qed

lemma extract_loop_step:
  assumes "extract_loop py (read_text d) (f # fs) acc = Inr cats"
  shows "extract_loop py (read_text d) fs
           (if excluded d f then acc
            else add_to_category (get_category (stem f)) (expected_case py d f) acc) = Inr cats
         \<and> (\<not> excluded d f \<longrightarrow> filled (expected_case py d f))"
proof (cases "file_raises py d f")
  case None
  from extract_loop_continues [OF None, of fs acc] assms show ?thesis by simp
next
  case (Some e)
  from extract_loop_raises [OF Some, of fs acc] assms show ?thesis by simp
qed

lemma extract_loop_cases:
  "extract_loop py (read_text (d :: tests_dir)) fs acc = Inr cats \<Longrightarrow> distinct (map fst acc) \<Longrightarrow>
   mset (all_cases cats) =
     mset (all_cases acc)
       + image_mset (expected_case py d) (filter_mset (\<lambda>f. \<not> excluded d f) (mset fs))"
proof (induction fs arbitrary: acc)
  case Nil
  then show ?case by simp
next
  case (Cons f fs)
  let ?acc = "add_to_category (get_category (stem f)) (expected_case py d f) acc"
  show ?case
  proof (cases "excluded d f")
    case True
    with extract_loop_step [OF Cons.prems(1)] Cons.IH [of acc] Cons.prems(2) show ?thesis
      by simp
  next
    case False
    with extract_loop_step [OF Cons.prems(1)]
    have l: "extract_loop py (read_text d) fs ?acc = Inr cats" by simp
    have "distinct (map fst ?acc)"
      using Cons.prems(2) by (rule add_to_category_distinct)
    with Cons.IH [OF l] False show ?thesis
      by (simp add: add_to_category_cases [OF Cons.prems(2)])
  qed
qed

lemma categories_inv_add:
  assumes "categories_inv cats"
  shows "categories_inv (add_to_category (get_category n) t cats)"
proof -
  let ?c = "get_category n"
  have "distinct (map fst (add_to_category ?c t cats))"
    using assms by (simp add: categories_inv_def add_to_category_distinct)
  moreover have "set (map fst (add_to_category ?c t cats)) \<subseteq> set category_order"
    using assms get_category_in_order [of n]
    by (auto simp: categories_inv_def add_to_category_keys)
  moreover have "\<forall>(k, tests) \<in> set (add_to_category ?c t cats). tests \<noteq> []"
    using assms add_to_category_nonempty [of cats ?c t] by (simp add: categories_inv_def)
  ultimately show ?thesis by (simp add: categories_inv_def)
qed

lemma extract_loop_categories_inv:
  "extract_loop py (read_text (d :: tests_dir)) fs acc = Inr cats \<Longrightarrow> categories_inv acc
     \<Longrightarrow> categories_inv cats"
proof (induction fs arbitrary: acc)
  case Nil
  then show ?case by simp
next
  case (Cons f fs)
  let ?acc = "add_to_category (get_category (stem f)) (expected_case py d f) acc"
  show ?case
  proof (cases "excluded d f")
    case True
    with extract_loop_step [OF Cons.prems(1)] Cons.IH [of acc] Cons.prems(2) show ?thesis
      by simp
  next
    case False
    with extract_loop_step [OF Cons.prems(1)]
    have "extract_loop py (read_text d) fs ?acc = Inr cats" by simp
    with Cons.IH [of ?acc] categories_inv_add [OF Cons.prems(2)] show ?thesis by simp
  qed
qed

lemma extract_loop_filled:
  "extract_loop py (read_text (d :: tests_dir)) fs acc = Inr cats \<Longrightarrow> distinct (map fst acc) \<Longrightarrow>
   list_all filled (all_cases acc) \<Longrightarrow> list_all filled (all_cases cats)"
proof (induction fs arbitrary: acc)
  case Nil
  then show ?case by simp
next
  case (Cons f fs)
  let ?acc = "add_to_category (get_category (stem f)) (expected_case py d f) acc"
  show ?case
  proof (cases "excluded d f")
    case True
    with extract_loop_step [OF Cons.prems(1)] Cons.IH [of acc] Cons.prems show ?thesis
      by simp
  next
    case False
    with extract_loop_step [OF Cons.prems(1)]
    have l: "extract_loop py (read_text d) fs ?acc = Inr cats"
      and e: "filled (expected_case py d f)" by simp_all
    have "set (all_cases ?acc) = set_mset (mset (all_cases acc) + {#expected_case py d f#})"
      using add_to_category_cases [OF Cons.prems(2), of "get_category (stem f)" "expected_case py d f"]
      by (metis set_mset_mset)
    with e Cons.prems(3) have "list_all filled (all_cases ?acc)"
      by (simp add: list_all_iff)
    with Cons.IH [OF l] add_to_category_distinct [OF Cons.prems(2)] show ?thesis
      by simp
  qed
qed

text \<open>
  Claim C8, as amended. Whenever \<open>extract_test_cases\<close> returns, the test cases of its
  result are exactly those of the globbed \<open>.ixml\<close> files that are not excluded, where a
  file is excluded when its stem is in \<open>SKIP_TESTS\<close> or its grammar file or its
  \<open>.inp\<close> file is missing, not decodable as UTF-8 or empty after stripping; and every
  test case of the result has a non-empty grammar and a non-empty input.
  \<open>read_file_safe\<close> catches \<open>FileNotFoundError\<close> and \<open>UnicodeDecodeError\<close> only:
  \<open>extract_test_cases\<close> returns exactly when, for every globbed file, no read that the
  loop performs fails with another exception and the \<open>print\<close> it performs does not
  raise; otherwise it raises the exception of the first file, in sorted order, at which
  one of them does.
\<close>

theorem extract_test_cases_excludes:
  "((\<exists>cats. extract_test_cases py d = Inr cats) \<longleftrightarrow>
      (\<forall>f \<in> set (glob_ixml d). file_raises py d f = None))
   \<and> (\<forall>e. extract_test_cases py d = Inl e \<longleftrightarrow>
         (\<exists>f. find (\<lambda>f. file_raises py d f \<noteq> None) (sort (glob_ixml d)) = Some f
              \<and> file_raises py d f = Some e))
   \<and> (\<forall>cats. extract_test_cases py d = Inr cats \<longrightarrow>
         mset (all_cases cats) =
           image_mset (expected_case py d)
             (filter_mset (\<lambda>f. \<not> excluded d f) (mset (glob_ixml d)))
         \<and> (\<forall>tc \<in> set (all_cases cats). tc_grammar tc \<noteq> [] \<and> tc_input tc \<noteq> []))"
proof (intro conjI impI allI)
  show "(\<exists>cats. extract_test_cases py d = Inr cats) \<longleftrightarrow>
      (\<forall>f \<in> set (glob_ixml d). file_raises py d f = None)"
    using extract_loop_Inr_iff [of py d "sort (glob_ixml d)" "[]"]
    by (simp add: extract_test_cases_def)
next
  fix e
  show "extract_test_cases py d = Inl e \<longleftrightarrow>
         (\<exists>f. find (\<lambda>f. file_raises py d f \<noteq> None) (sort (glob_ixml d)) = Some f
              \<and> file_raises py d f = Some e)"
    unfolding extract_test_cases_def by (rule extract_loop_Inl_iff)
next
  fix cats
  assume "extract_test_cases py d = Inr cats"
  then have l: "extract_loop py (read_text d) (sort (glob_ixml d)) [] = Inr cats"
    by (simp add: extract_test_cases_def)
  from extract_loop_cases [OF l]
  show "mset (all_cases cats) =
          image_mset (expected_case py d)
            (filter_mset (\<lambda>f. \<not> excluded d f) (mset (glob_ixml d)))"
    by (simp add: all_cases_def)
  from extract_loop_filled [OF l]
  show "\<forall>tc \<in> set (all_cases cats). tc_grammar tc \<noteq> [] \<and> tc_input tc \<noteq> []"
    by (simp add: all_cases_def list_all_iff filled_def)
qed

theorem extract_test_cases_excludes_witness:
  "list_all (\<lambda>f. file_raises utf8_python example_dir f = None) (glob_ixml example_dir)
   \<and> extract_test_cases utf8_python example_dir = Inr example_categories
   \<and> mset (all_cases example_categories) =
       image_mset (expected_case utf8_python example_dir)
         (filter_mset (\<lambda>f. \<not> excluded example_dir f) (mset (glob_ixml example_dir)))
   \<and> list_all filled (all_cases example_categories)
   \<and> find (\<lambda>f. file_raises utf8_python locked_dir f \<noteq> None) (sort (glob_ixml locked_dir))
       = Some (str ''a.ixml'')
   \<and> file_raises utf8_python locked_dir (str ''a.ixml'') = Some PermissionError
   \<and> extract_test_cases utf8_python locked_dir = Inl PermissionError
   \<and> find (\<lambda>f. file_raises ascii_python example_dir f \<noteq> None) (sort (glob_ixml example_dir))
       = Some (str ''aaa.ixml'')
   \<and> file_raises ascii_python example_dir (str ''aaa.ixml'') = Some UnicodeEncodeError
   \<and> extract_test_cases ascii_python example_dir = Inl UnicodeEncodeError"
proof -
  have h: "list_all (\<lambda>f. file_raises utf8_python example_dir f = None) (glob_ixml example_dir)"
    by code_simp
  have e: "extract_test_cases utf8_python example_dir = Inr example_categories"
    by code_simp
  have a: "find (\<lambda>f. file_raises utf8_python locked_dir f \<noteq> None) (sort (glob_ixml locked_dir))
       = Some (str ''a.ixml'')"
    by code_simp
  have b: "file_raises utf8_python locked_dir (str ''a.ixml'') = Some PermissionError"
    by code_simp
  have c: "find (\<lambda>f. file_raises ascii_python example_dir f \<noteq> None) (sort (glob_ixml example_dir))
       = Some (str ''aaa.ixml'')"
    by code_simp
  have g: "file_raises ascii_python example_dir (str ''aaa.ixml'') = Some UnicodeEncodeError"
    by code_simp
  from extract_test_cases_excludes [of utf8_python example_dir] e
  have 1: "mset (all_cases example_categories) =
       image_mset (expected_case utf8_python example_dir)
         (filter_mset (\<lambda>f. \<not> excluded example_dir f) (mset (glob_ixml example_dir)))"
    and 2: "list_all filled (all_cases example_categories)"
    by (simp_all add: list_all_iff filled_def)
  from extract_test_cases_excludes [of utf8_python locked_dir] a b
  have 3: "extract_test_cases utf8_python locked_dir = Inl PermissionError"
    by blast
  from extract_test_cases_excludes [of ascii_python example_dir] c g
  have 4: "extract_test_cases ascii_python example_dir = Inl UnicodeEncodeError"
    by blast
  from h e 1 2 a b 3 c g 4 show ?thesis
    by simp
qed

text \<open>
  The claim as stated fails: a read that raises \<open>PermissionError\<close> is a file-read
  failure, and it leaves \<open>extract_test_cases\<close>, also when every \<open>print\<close> succeeds.
\<close>

theorem extract_test_cases_raises_counterexample:
  "read_text unreadable_dir (str ''arith.inp'') = Inl PermissionError
   \<and> extract_test_cases utf8_python unreadable_dir = Inl PermissionError"
  by code_simp

subsection \<open>The output of main\<close>

lemma sorted_categories_keys:
  "map fst (sorted_categories cats) = filter (\<lambda>cat. cat \<in> fst ` set cats) category_order"
proof -
  have "map fst (List.map_filter (\<lambda>cat. map_option (Pair cat) (map_of cats cat)) order)
          = filter (\<lambda>cat. cat \<in> fst ` set cats) order" for order
    by (induction order)
      (force simp: List.map_filter_simps map_of_eq_None_iff dest: map_of_SomeD split: option.splits)+
  then show ?thesis by (simp add: sorted_categories_def)
qed

lemma set_map_filter: "set (List.map_filter f xs) = {y. \<exists>x \<in> set xs. f x = Some y}"
  by (induction xs) (auto simp: List.map_filter_simps split: option.splits)

lemma sorted_categories_set:
  "set (sorted_categories cats) = {(cat, tests). cat \<in> set category_order \<and> map_of cats cat = Some tests}"
  by (auto simp: sorted_categories_def set_map_filter)

lemma distinct_category_order: "distinct category_order"
  by code_simp

lemma sorted_categories_perm:
  assumes "categories_inv cats"
  shows "mset (sorted_categories cats) = mset cats"
proof -
  from assms have d: "distinct (map fst cats)" and k: "fst ` set cats \<subseteq> set category_order"
    by (simp_all add: categories_inv_def)
  have "distinct (map fst (sorted_categories cats))"
    by (simp add: sorted_categories_keys distinct_category_order)
  then have "distinct (sorted_categories cats)"
    by (rule distinct_map [THEN iffD1, THEN conjunct1])
  moreover from d have "distinct cats"
    by (rule distinct_map [THEN iffD1, THEN conjunct1])
  moreover have "set (sorted_categories cats) = set cats"
    using d k by (force simp: sorted_categories_set)
  ultimately show ?thesis
    by (simp add: set_eq_iff_mset_eq_distinct)
qed

lemma extract_test_cases_categories_inv:
  "extract_test_cases py d = Inr cats \<Longrightarrow> categories_inv cats"
  unfolding extract_test_cases_def
  by (erule extract_loop_categories_inv) (simp add: categories_inv_def)

lemma print_then_Inr:
  "print_then py m rest = Inr x \<Longrightarrow> rest = Inr x"
  by (simp add: print_then_def split: option.splits)

text \<open>
  Claim C9. In the object \<open>main\<close> writes, \<open>stats.total_tests\<close> is the sum of the
  lengths of the lists of the \<open>categories\<close> mapping, \<open>stats.categories\<close> is the number
  of its keys, none of its lists is empty, and its keys are those of the fixed order that
  occur, in that order.
\<close>

theorem main_stats:
  assumes "main py d = Inr out"
  shows "total_tests (out_stats out) = sum_list (map (\<lambda>(cat, tests). length tests) (out_categories out))
       \<and> stats_categories (out_stats out) = length (out_categories out)
       \<and> (\<forall>(cat, tests) \<in> set (out_categories out). tests \<noteq> [])
       \<and> map fst (out_categories out) =
           filter (\<lambda>cat. cat \<in> fst ` set (out_categories out))
             [str ''Basic Examples'', str ''Arithmetic & Math'', str ''Data Formats'',
              str ''Email & Addresses'', str ''Text Processing'', str ''Character Classes'',
              str ''Programming Languages'', str ''Other'']"
proof -
  from assms
  have "(case extract_test_cases py d of Inl e \<Rightarrow> Inl e
         | Inr categories \<Rightarrow> Inr (make_output categories)) = Inr out"
    unfolding main_def by (rule print_then_Inr [OF print_then_Inr [OF print_then_Inr]])
  then obtain cats where c: "extract_test_cases py d = Inr cats" and o: "out = make_output cats"
    by (auto split: sum.splits)
  from c have i: "categories_inv cats" by (rule extract_test_cases_categories_inv)
  then have p: "mset (sorted_categories cats) = mset cats" by (rule sorted_categories_perm)
  have "sum_list (map (\<lambda>(cat, tests). length tests) (sorted_categories cats))
          = sum_list (map (\<lambda>(cat, tests). length tests) cats)"
  proof -
    have "sum_mset (mset (map (\<lambda>(cat, tests). length tests) (sorted_categories cats)))
            = sum_mset (mset (map (\<lambda>(cat, tests). length tests) cats))"
      using p by simp
    then show ?thesis by (simp only: sum_mset_sum_list)
  qed
  moreover have "length (sorted_categories cats) = length cats"
    using p by (rule mset_eq_length)
  moreover have "\<forall>(cat, tests) \<in> set (sorted_categories cats). tests \<noteq> []"
  proof -
    from p have "set (sorted_categories cats) = set cats" by (rule mset_eq_setD)
    with i show ?thesis by (simp add: categories_inv_def)
  qed
  moreover have "fst ` set (sorted_categories cats) = fst ` set cats"
    using mset_eq_setD [OF p] by simp
  then have "map fst (sorted_categories cats)
      = filter (\<lambda>cat. cat \<in> fst ` set (sorted_categories cats)) category_order"
    by (simp add: sorted_categories_keys)
  moreover have "[str ''Basic Examples'', str ''Arithmetic & Math'', str ''Data Formats'',
      str ''Email & Addresses'', str ''Text Processing'', str ''Character Classes'',
      str ''Programming Languages'', str ''Other''] = category_order"
    by (simp only: category_order_def)
  ultimately show ?thesis
    by (simp only: o make_output_def json_output.simps stats.simps simp_thms)
qed

theorem main_stats_witness:
  "main utf8_python example_dir = Inr example_output
   \<and> total_tests (out_stats example_output) =
       sum_list (map (\<lambda>(cat, tests). length tests) (out_categories example_output))
   \<and> stats_categories (out_stats example_output) = length (out_categories example_output)
   \<and> map fst (out_categories example_output) =
       [str ''Basic Examples'', str ''Arithmetic & Math'', str ''Data Formats'', str ''Other'']"
proof -
  have m: "main utf8_python example_dir = Inr example_output"
    by code_simp
  have k: "map fst (out_categories example_output) =
       [str ''Basic Examples'', str ''Arithmetic & Math'', str ''Data Formats'', str ''Other'']"
    by (simp add: example_output_def)
  from main_stats [OF m] m k show ?thesis
    by simp
qed

subsection \<open>get\_category and the order of processing\<close>

lemma get_category_loop_find:
  "get_category_loop items n =
     (case find (\<lambda>(category, tests). n \<in> set tests) items of
        Some (category, tests) \<Rightarrow> category
      | None \<Rightarrow> str ''Other'')"
  by (induction items n rule: get_category_loop.induct) auto

lemma sort_glob_perm:
  assumes "mset (entries d) = mset (entries d')"
  shows "sort (glob_ixml d) = sort (glob_ixml d')"
proof -
  from assms have "mset (glob_ixml d) = mset (glob_ixml d')"
    by (simp add: glob_ixml_def)
  then show ?thesis
    by (intro properties_for_sort) simp_all
qed

text \<open>
  Claim C10. \<open>get_category\<close> returns the first category of \<open>CATEGORIES\<close> whose list
  contains the name, and \<open>Other\<close> when no list does. \<open>extract_test_cases\<close> runs its
  loop over the globbed files in sorted order, so two listings of the same entries with the
  same file contents give the same result, and \<open>main\<close> the same output.
\<close>

theorem get_category_first_and_sorted_run:
  "get_category n =
     (case find (\<lambda>(category, tests). n \<in> set tests) CATEGORIES of
        Some (category, tests) \<Rightarrow> category
      | None \<Rightarrow> str ''Other'')
   \<and> (\<exists>files. sorted files \<and> mset files = mset (glob_ixml d)
         \<and> extract_test_cases py d = extract_loop py (read_text d) files [])
   \<and> (mset (entries d) = mset (entries d') \<and> read_text d = read_text d' \<longrightarrow>
         extract_test_cases py d = extract_test_cases py d' \<and> main py d = main py d')"
proof (intro conjI impI)
  show "get_category n =
     (case find (\<lambda>(category, tests). n \<in> set tests) CATEGORIES of
        Some (category, tests) \<Rightarrow> category
      | None \<Rightarrow> str ''Other'')"
    unfolding get_category_def by (rule get_category_loop_find)
  show "\<exists>files. sorted files \<and> mset files = mset (glob_ixml d)
         \<and> extract_test_cases py d = extract_loop py (read_text d) files []"
    by (rule exI [of _ "sort (glob_ixml d)"]) (simp add: extract_test_cases_def)
next
  assume a: "mset (entries d) = mset (entries d') \<and> read_text d = read_text d'"
  then have "sort (glob_ixml d) = sort (glob_ixml d')"
    using sort_glob_perm [of d d'] by simp
  with a show e: "extract_test_cases py d = extract_test_cases py d'"
    by (simp add: extract_test_cases_def)
  then show "main py d = main py d'"
    by (simp add: main_def)
qed

theorem get_category_first_and_sorted_run_witness:
  "mset (entries example_dir) = mset (entries relisted_dir)
   \<and> read_text example_dir = read_text relisted_dir
   \<and> entries example_dir \<noteq> entries relisted_dir
   \<and> extract_test_cases utf8_python example_dir = extract_test_cases utf8_python relisted_dir
   \<and> main utf8_python example_dir = main utf8_python relisted_dir"
proof -
  have h: "mset (entries example_dir) = mset (entries relisted_dir)
      \<and> read_text example_dir = read_text relisted_dir"
    by (simp add: relisted_dir_def)
  have n: "entries example_dir \<noteq> entries relisted_dir"
    by code_simp
  from get_category_first_and_sorted_run
         [where d = example_dir and d' = relisted_dir and py = utf8_python] h n
  show ?thesis
    by simp
qed

section \<open>Properties of the retrieval core\<close>

subsection \<open>The ranking order and its sort\<close>

lemma ranks_before_total: "\<not> ranks_before a b \<Longrightarrow> ranks_before b a"
  by (auto simp: ranks_before_def)

lemma ranks_before_trans: "ranks_before a b \<Longrightarrow> ranks_before b c \<Longrightarrow> ranks_before a c"
  by (auto simp: ranks_before_def)

lemma mset_insert_ranked: "mset (insert_ranked x xs) = add_mset x (mset xs)"
  by (induction xs) auto

lemma mset_sort_ranked: "mset (sort_ranked xs) = mset xs"
  by (induction xs) (auto simp: mset_insert_ranked)

lemma set_insert_ranked: "set (insert_ranked x xs) = insert x (set xs)"
  using mset_insert_ranked [of x xs, THEN arg_cong, of set_mset] by simp

lemma set_sort_ranked: "set (sort_ranked xs) = set xs"
  using mset_sort_ranked [of xs, THEN arg_cong, of set_mset] by simp

lemma length_sort_ranked: "length (sort_ranked xs) = length xs"
  using mset_sort_ranked [of xs, THEN arg_cong, of size] by simp

lemma sorted_insert_ranked:
  "sorted_wrt ranks_before xs \<Longrightarrow> sorted_wrt ranks_before (insert_ranked x xs)"
proof (induction xs)
  case Nil
  then show ?case by simp
next
  case (Cons y ys)
  show ?case
  proof (cases "ranks_before x y")
    case True
    with Cons.prems show ?thesis
      by (auto intro: ranks_before_trans)
  next
    case False
    then have "ranks_before y x" by (rule ranks_before_total)
    with False Cons show ?thesis
      by (auto simp: set_insert_ranked)
  qed
qed

lemma sorted_sort_ranked: "sorted_wrt ranks_before (sort_ranked xs)"
  by (induction xs) (auto intro: sorted_insert_ranked)

lemma ranked_scores_descend:
  "sorted_wrt ranks_before xs \<Longrightarrow> sorted_wrt (\<lambda>a b. b \<le> a) (map snd xs)"
  unfolding sorted_wrt_map
  by (erule sorted_wrt_mono_rel [rotated]) (auto simp: ranks_before_def)

lemma distinct_ids_sort_ranked:
  "distinct (map (commit_id \<circ> fst) (sort_ranked xs)) = distinct (map (commit_id \<circ> fst) xs)"
proof -
  have "mset (map (commit_id \<circ> fst) (sort_ranked xs)) = mset (map (commit_id \<circ> fst) xs)"
    by (simp add: mset_sort_ranked)
  then show ?thesis by (rule mset_eq_imp_distinct_iff)
qed

subsection \<open>One record per identifier\<close>

lemma fst_with_scores: "map fst (with_scores similarity vector records) = records"
  by (simp add: with_scores_def comp_def)

lemma distinct_ids_with_scores:
  "distinct (map (commit_id \<circ> fst) (with_scores similarity vector records))
     = distinct (map commit_id records)"
  by (simp add: with_scores_def comp_def)

lemma distinct_ids_query:
  assumes "distinct (map commit_id store)"
  shows "distinct (map commit_id (query similarity store vector k))"
proof -
  have "distinct (map (commit_id \<circ> fst) (sort_ranked (with_scores similarity vector store)))"
    using assms by (simp only: distinct_ids_sort_ranked distinct_ids_with_scores)
  then have "distinct (take k (map (commit_id \<circ> fst) (sort_ranked (with_scores similarity vector store))))"
    by (rule distinct_take)
  then show ?thesis
    by (simp add: query_def take_map)
qed

lemma distinct_ids_surviving:
  assumes "distinct (map commit_id store)"
  shows "distinct (map (commit_id \<circ> fst) (surviving config k similarity store vector))"
  unfolding surviving_def
  using distinct_ids_query [OF assms, of similarity vector "max_results config * k"]
  by (intro distinct_map_filter) (simp only: distinct_ids_with_scores)

lemma upsert_keeps_one_record_per_id:
  "distinct (map commit_id store) \<Longrightarrow> distinct (map commit_id (upsert record store))"
proof -
  have "map commit_id (map (\<lambda>r. if commit_id r = commit_id record then record else r) store)
          = map commit_id store"
    by (induction store) auto
  then show "distinct (map commit_id store) \<Longrightarrow> distinct (map commit_id (upsert record store))"
    by (auto simp: upsert_def simp del: map_map)
qed

subsection \<open>The Similarity Ranker\<close>

text \<open>
  Claim C2. For a store that holds one record per identifier, as \<open>upsert\<close> keeps it,
  the sequence the Similarity Ranker returns has non-increasing similarity scores, no
  commit reference twice, and at most \<open>max_results\<close> elements.
\<close>

theorem rank_query_sorted_distinct_capped:
  assumes "distinct (map commit_id store)"
    and "rank_query config overfetch_factor embed_text similarity store prompt = Inr results"
  shows "sorted_wrt (\<lambda>a b. b \<le> a) (map score results)
       \<and> distinct (map commit_ref results)
       \<and> length results \<le> max_results config"
proof -
  from assms(2) obtain vector where v: "embed_text prompt = Inr vector"
    by (auto simp: rank_query_def split: sum.splits)
  let ?kept = "surviving config overfetch_factor similarity store vector"
  let ?top = "take (max_results config) (sort_ranked ?kept)"
  from assms(2) v have r: "results = map to_result ?top"
    by (simp add: rank_query_def)
  have "sorted_wrt ranks_before ?top"
    using sorted_sort_ranked [of ?kept] by (rule sorted_wrt_take)
  then have "sorted_wrt (\<lambda>a b. b \<le> a) (map snd ?top)"
    by (rule ranked_scores_descend)
  moreover have "map score results = map snd ?top"
    by (simp add: r to_result_def comp_def)
  moreover have "distinct (map (commit_id \<circ> fst) (sort_ranked ?kept))"
    using distinct_ids_surviving [OF assms(1)] by (simp only: distinct_ids_sort_ranked)
  then have "distinct (take (max_results config) (map (commit_id \<circ> fst) (sort_ranked ?kept)))"
    by (rule distinct_take)
  then have "distinct (map commit_ref results)"
    by (simp add: r to_result_def comp_def take_map)
  moreover have "length results \<le> max_results config"
    by (simp add: r)
  ultimately show ?thesis by simp
qed

theorem rank_query_sorted_distinct_capped_witness:
  "distinct (map commit_id history_store)
   \<and> rank_query history_config 2 scenario_embed dot_product history_store ''parser''
       = Inr history_results
   \<and> sorted_wrt (\<lambda>a b. b \<le> a) (map score history_results)
   \<and> distinct (map commit_ref history_results)
   \<and> length history_results \<le> max_results history_config"
proof -
  have d: "distinct (map commit_id history_store)"
    by code_simp
  have r: "rank_query history_config 2 scenario_embed dot_product history_store ''parser''
       = Inr history_results"
    by code_simp
  from rank_query_sorted_distinct_capped [OF d r] d r show ?thesis
    by simp
qed

text \<open>
  Claim C3. When the Embedder accepts the prompt, the Similarity Ranker returns a
  sequence in which no result scores below \<open>similarity_threshold\<close>; its length is the
  smaller of \<open>max_results\<close> and the number of candidates that survive the threshold, and
  when fewer than \<open>max_results\<close> survive, the results are exactly the survivors. The
  scenario of section 8 is the witness.
\<close>

theorem rank_query_threshold_unpadded:
  assumes "embed_text prompt = Inr vector"
  shows "\<exists>results.
           rank_query config overfetch_factor embed_text similarity store prompt = Inr results
         \<and> (\<forall>r \<in> set results. \<not> score r < similarity_threshold config)
         \<and> length results =
             min (max_results config)
               (length (surviving config overfetch_factor similarity store vector))
         \<and> (length (surviving config overfetch_factor similarity store vector) < max_results config
              \<longrightarrow> mset results
                   = mset (map to_result (surviving config overfetch_factor similarity store vector)))"
proof -
  let ?kept = "surviving config overfetch_factor similarity store vector"
  let ?results = "map to_result (take (max_results config) (sort_ranked ?kept))"
  have r: "rank_query config overfetch_factor embed_text similarity store prompt = Inr ?results"
    by (simp add: rank_query_def assms)
  have "\<forall>c \<in> set ?kept. \<not> snd c < similarity_threshold config"
    by (simp add: surviving_def)
  then have "\<forall>c \<in> set (take (max_results config) (sort_ranked ?kept)).
               \<not> snd c < similarity_threshold config"
    using set_take_subset [of "max_results config" "sort_ranked ?kept"]
    by (auto simp: set_sort_ranked)
  then have t: "\<forall>r \<in> set ?results. \<not> score r < similarity_threshold config"
    by (simp add: to_result_def)
  have l: "length ?results = min (max_results config) (length ?kept)"
    by (simp add: length_sort_ranked min.commute)
  have u: "length ?kept < max_results config \<longrightarrow> mset ?results = mset (map to_result ?kept)"
    by (simp add: length_sort_ranked mset_sort_ranked)
  from r t l u show ?thesis by blast
qed

theorem rank_query_threshold_unpadded_witness:
  "scenario_embed ''parser'' = Inr [1, 0]
   \<and> map (dot_product [1, 0] \<circ> embedding) scenario_store = [9 / 10, 3 / 4, 2 / 5]
   \<and> rank_query scenario_config 2 scenario_embed dot_product scenario_store ''parser''
       = Inr scenario_results
   \<and> length (surviving roomy_config 2 dot_product scenario_store [1, 0])
       < max_results roomy_config
   \<and> rank_query roomy_config 2 scenario_embed dot_product scenario_store ''parser''
       = Inr scenario_results
   \<and> mset scenario_results
       = mset (map to_result (surviving roomy_config 2 dot_product scenario_store [1, 0]))"
proof -
  have e: "scenario_embed ''parser'' = Inr [1, 0]"
    by (simp add: scenario_embed_def)
  have s: "map (dot_product [1, 0] \<circ> embedding) scenario_store = [9 / 10, 3 / 4, 2 / 5]"
    by code_simp
  have q: "rank_query scenario_config 2 scenario_embed dot_product scenario_store ''parser''
       = Inr scenario_results"
    by code_simp
  have f: "length (surviving roomy_config 2 dot_product scenario_store [1, 0])
       < max_results roomy_config"
    by code_simp
  have r: "rank_query roomy_config 2 scenario_embed dot_product scenario_store ''parser''
       = Inr scenario_results"
    by code_simp
  from rank_query_threshold_unpadded
         [where embed_text = scenario_embed and prompt = "''parser''" and vector = "[1, 0]"
            and config = roomy_config and overfetch_factor = 2 and similarity = dot_product
            and store = scenario_store, OF e] f r
  have "mset scenario_results
       = mset (map to_result (surviving roomy_config 2 dot_product scenario_store [1, 0]))"
    by auto
  with e s q f r show ?thesis
    by simp
qed

end
